theory Spec2Isabelle
  imports Complex_Main "HOL-Library.Sublist" "HOL-Library.AList"
begin

section \<open>Python values used by the MCC plotter\<close>

text \<open>
  Python strings are modelled as \<open>string\<close> (ASCII text), Python floats as
  \<open>real\<close> numbers, dictionaries as association lists in insertion order, and
  exceptions as values of \<open>py_error\<close>. The parameter derivation computes with the
  reals exactly; the depth test of the curve selector rounds every operation to binary64.
\<close>

datatype py_error = IndexError | KeyError | ZeroDivisionError

subsection \<open>String built-ins\<close>

definition is_space :: "char \<Rightarrow> bool" where
  \<comment> \<open>the ASCII characters for which \<open>str.isspace\<close> holds\<close>
  "is_space c \<longleftrightarrow> c \<in> set [CHR '' '', CHR 0x09, CHR 0x0A, CHR 0x0B, CHR 0x0C, CHR 0x0D,
                            CHR 0x1C, CHR 0x1D, CHR 0x1E, CHR 0x1F]"

definition strip :: "string \<Rightarrow> string" where
  \<comment> \<open>\<open>s.strip()\<close>\<close>
  "strip s = rev (dropWhile is_space (rev (dropWhile is_space s)))"

definition lower_char :: "char \<Rightarrow> char" where
  "lower_char c = (case map_of (zip ''ABCDEFGHIJKLMNOPQRSTUVWXYZ'' ''abcdefghijklmnopqrstuvwxyz'') c of
                     Some d \<Rightarrow> d | None \<Rightarrow> c)"

definition upper_char :: "char \<Rightarrow> char" where
  "upper_char c = (case map_of (zip ''abcdefghijklmnopqrstuvwxyz'' ''ABCDEFGHIJKLMNOPQRSTUVWXYZ'') c of
                     Some d \<Rightarrow> d | None \<Rightarrow> c)"

definition lower :: "string \<Rightarrow> string" where
  \<comment> \<open>\<open>s.lower()\<close>\<close>
  "lower s = map lower_char s"

definition upper :: "string \<Rightarrow> string" where
  \<comment> \<open>\<open>s.upper()\<close>\<close>
  "upper s = map upper_char s"

definition startswith :: "string \<Rightarrow> string \<Rightarrow> bool" where
  \<comment> \<open>\<open>s.startswith(p)\<close>\<close>
  "startswith s p \<longleftrightarrow> prefix p s"

definition contains :: "string \<Rightarrow> string \<Rightarrow> bool" where
  \<comment> \<open>\<open>p in s\<close>: \<open>p\<close> occurs in \<open>s\<close> as a contiguous substring\<close>
  "contains s p \<longleftrightarrow> sublist p s"

definition after_eq :: "string \<Rightarrow> string" where
  \<comment> \<open>\<open>s.split("=", 1)[1]\<close> for a string that holds an \<open>=\<close>: the text after the first one\<close>
  "after_eq s = tl (dropWhile (\<lambda>c. c \<noteq> CHR ''='') s)"

fun split_acc :: "string \<Rightarrow> string \<Rightarrow> string list" where
  "split_acc cur [] = (if cur = [] then [] else [cur])"
| "split_acc cur (c # cs) =
     (if is_space c then (if cur = [] then split_acc [] cs else cur # split_acc [] cs)
      else split_acc (cur @ [c]) cs)"

definition split_ws :: "string \<Rightarrow> string list" where
  \<comment> \<open>\<open>s.split()\<close>: the maximal runs of non-whitespace characters\<close>
  "split_ws s = split_acc [] s"


definition replace_comma :: "string \<Rightarrow> string" where
  \<comment> \<open>\<open>s.replace(",", ".")\<close>\<close>
  "replace_comma s = map (\<lambda>c. if c = CHR '','' then CHR ''.'' else c) s"

subsection \<open>Numbers\<close>

text \<open>
  The built-in \<open>float(s)\<close> is a parameter \<open>pf\<close> of every function that calls it:
  \<open>pf s = None\<close> stands for \<open>ValueError\<close>. The function \<open>float_dec\<close> below is
  one such parser, for the plain decimal literals \<open>[+-]digits[.digits]\<close> that \<open>float\<close>
  accepts; it instantiates \<open>pf\<close> in the worked examples.
\<close>

definition digit_of :: "char \<Rightarrow> nat option" where
  "digit_of c = map_of (zip ''0123456789'' [0, 1, 2, 3, 4, 5, 6, 7, 8, 9]) c"

fun nat_of_digits :: "nat \<Rightarrow> string \<Rightarrow> nat option" where
  "nat_of_digits acc [] = Some acc"
| "nat_of_digits acc (c # cs) =
     (case digit_of c of None \<Rightarrow> None | Some d \<Rightarrow> nat_of_digits (10 * acc + d) cs)"

definition unsigned_dec :: "string \<Rightarrow> real option" where
  "unsigned_dec s =
     (let ip = takeWhile (\<lambda>c. c \<noteq> CHR ''.'') s;
          r = dropWhile (\<lambda>c. c \<noteq> CHR ''.'') s;
          fp = (if r = [] then [] else tl r)
      in if ip = [] \<and> fp = [] then None
         else case nat_of_digits 0 ip of
                None \<Rightarrow> None
              | Some i \<Rightarrow>
                  (case nat_of_digits 0 fp of
                     None \<Rightarrow> None
                   | Some f \<Rightarrow> Some (real i + real f / 10 ^ length fp)))"

definition float_dec :: "string \<Rightarrow> real option" where
  "float_dec s =
     (case strip s of
        [] \<Rightarrow> None
      | c # cs \<Rightarrow>
          if c = CHR ''-'' then map_option uminus (unsigned_dec cs)
          else if c = CHR ''+'' then unsigned_dec cs
          else unsigned_dec (c # cs))"

subsection \<open>Binary64 rounding\<close>

text \<open>
  A finite Python float is a real number that binary64 represents. \<open>fl x\<close> is the
  binary64 value nearest to the real \<open>x\<close>, ties to the even significand: the result of
  an IEEE 754 operation whose exact result is \<open>x\<close>, and the value of a decimal literal.
  The significand has 53 bits; below \<open>2 ^ - 1022\<close> the spacing stays \<open>2 ^ - 1074\<close>.
  \<open>exponent a\<close> is the integer \<open>e\<close> with \<open>2 ^ e \<le> a < 2 ^ (e + 1)\<close> for \<open>a > 0\<close>.
\<close>

function exp_up :: "real \<Rightarrow> int" where
  "exp_up a = (if 2 \<le> a then exp_up (a / 2) + 1 else 0)"
  by pat_completeness auto
termination
proof (relation "measure (\<lambda>a. nat \<lfloor>a\<rfloor>)")
  show "wf (measure (\<lambda>a::real. nat \<lfloor>a\<rfloor>))" by simp
next
  fix a :: real
  assume a: "2 \<le> a"
  have "a / 2 \<le> a - 1" using a by simp
  then have "\<lfloor>a / 2\<rfloor> \<le> \<lfloor>a - 1\<rfloor>" by (rule floor_mono)
  then have "\<lfloor>a / 2\<rfloor> < \<lfloor>a\<rfloor>" by simp
  moreover have "0 < \<lfloor>a\<rfloor>" using a by simp
  ultimately show "(a / 2, a) \<in> measure (\<lambda>a. nat \<lfloor>a\<rfloor>)" by simp
qed

function exp_down :: "real \<Rightarrow> int" where
  "exp_down a = (if 0 < a \<and> a < 1 then exp_down (2 * a) - 1 else 0)"
  by pat_completeness auto
termination
proof (relation "measure (\<lambda>a. nat \<lfloor>1 / a\<rfloor>)")
  show "wf (measure (\<lambda>a::real. nat \<lfloor>1 / a\<rfloor>))" by simp
next
  fix a :: real
  assume a: "0 < a \<and> a < 1"
  define b where "b = 1 / a"
  have b: "1 < b" using a by (simp add: b_def)
  have h: "1 / (2 * a) = b / 2" by (simp add: b_def)
  have "\<lfloor>b / 2\<rfloor> < \<lfloor>b\<rfloor>"
  proof (cases "2 \<le> b")
    case True
    then have "b / 2 \<le> b - 1" by simp
    then have "\<lfloor>b / 2\<rfloor> \<le> \<lfloor>b - 1\<rfloor>" by (rule floor_mono)
    then show ?thesis by simp
  next
    case False
    with b have "\<lfloor>b / 2\<rfloor> = 0" "\<lfloor>b\<rfloor> = 1" by (simp_all add: floor_eq_iff)
    then show ?thesis by simp
  qed
  moreover have "0 < \<lfloor>b\<rfloor>" using b by simp
  ultimately show "(2 * a, a) \<in> measure (\<lambda>a. nat \<lfloor>1 / a\<rfloor>)" by (simp add: h b_def)
qed

declare exp_up.simps [simp del] exp_down.simps [simp del]

definition exponent :: "real \<Rightarrow> int" where
  "exponent a = (if 1 \<le> a then exp_up a else exp_down a)"

definition round_half_even :: "real \<Rightarrow> int" where
  "round_half_even x =
     (let n = \<lfloor>x\<rfloor>; r = x - of_int n
      in if r < 1 / 2 then n else if 1 / 2 < r then n + 1 else if even n then n else n + 1)"

definition quantum :: "real \<Rightarrow> real" where
  "quantum x =
     (let e = max (exponent \<bar>x\<bar>) (- 1022) - 52
      in if 0 \<le> e then 2 ^ nat e else 1 / 2 ^ nat (- e))"

definition fl :: "real \<Rightarrow> real" where
  "fl x = (if x = 0 then 0 else of_int (round_half_even (x / quantum x)) * quantum x)"

definition truediv :: "real \<Rightarrow> real \<Rightarrow> py_error + real" where
  \<comment> \<open>\<open>a / b\<close> on floats raises \<open>ZeroDivisionError\<close> when \<open>b == 0\<close>\<close>
  "truediv a b = (if b = 0 then Inl ZeroDivisionError else Inr (a / b))"

definition as_float :: "(string \<Rightarrow> real option) \<Rightarrow> string option \<Rightarrow> real option" where
  \<comment> \<open>\<open>_as_float(txt)\<close>\<close>
  "as_float pf txt =
     (case txt of
        None \<Rightarrow> None
      | Some t \<Rightarrow> pf (replace_comma (strip t)))"

subsection \<open>Dictionaries\<close>

definition setdefault :: "'k \<Rightarrow> 'v \<Rightarrow> ('k \<times> 'v) list \<Rightarrow> ('k \<times> 'v) list" where
  \<comment> \<open>\<open>d.setdefault(k, v)\<close>: a missing key is appended, a present one is kept\<close>
  "setdefault k v d = (if k \<in> fst ` set d then d else d @ [(k, v)])"

section \<open>Style allocator (class MCCPlotterGUI)\<close>

definition OKABE_ITO :: "string list" where
  "OKABE_ITO = [''#0072B2'', ''#E69F00'', ''#009E73'', ''#D55E00'',
                ''#CC79A7'', ''#56B4E9'', ''#F0E442'', ''#000000'']"

definition MARKER_POOL :: "string list" where
  "MARKER_POOL = [''o'', ''s'', ''^'', ''v'', ''d'', ''p'', ''h'', ''x'', ''*'', ''+'', ''<'', ''>'', ''.'']"

type_synonym style_map = "(string \<times> string) list"
type_synonym style_maps = "(string \<times> style_map) list"

record prefs_global =
  color_maps :: style_maps
  marker_maps :: style_maps

definition normalize_key :: "string \<Rightarrow> string" where
  \<comment> \<open>\<open>_normalize_key\<close>: \<open>str(text).strip().lower()\<close>\<close>
  "normalize_key text = lower (strip text)"

definition next_from_pool :: "string set \<Rightarrow> string list \<Rightarrow> py_error + string" where
  \<comment> \<open>\<open>_next_from_pool\<close>: the first pool entry not in \<open>used_set\<close>, else
      \<open>pool_list[len(used_set) % max(1, len(pool_list))]\<close>\<close>
  "next_from_pool used_set pool =
     (case find (\<lambda>val. val \<notin> used_set) pool of
        Some val \<Rightarrow> Inr val
      | None \<Rightarrow>
          (let i = card used_set mod max 1 (length pool)
           in if i < length pool then Inr (pool ! i) else Inl IndexError))"

definition allocate ::
  "string list \<Rightarrow> string \<Rightarrow> string \<Rightarrow> style_maps \<Rightarrow> py_error + (string \<times> style_maps)" where
  \<comment> \<open>the body shared by \<open>_get_color_for\<close> and \<open>_get_marker_for\<close> after the
      namespace key is fixed: \<open>maps.setdefault(key, {})\<close>, lookup of the normalized
      value, allocation from the pool when it is missing\<close>
  "allocate pool key value maps =
     (let maps1 = setdefault key [] maps;
          norm_val = normalize_key value
      in case map_of maps1 key of
           None \<Rightarrow> Inl KeyError
         | Some param_map \<Rightarrow>
             (case map_of param_map norm_val of
                Some symb \<Rightarrow> Inr (symb, maps1)
              | None \<Rightarrow>
                  (case next_from_pool (set (map snd param_map)) pool of
                     Inl e \<Rightarrow> Inl e
                   | Inr symb \<Rightarrow>
                       Inr (symb, AList.update key (AList.update norm_val symb param_map) maps1))))"

definition get_color_for ::
  "string \<Rightarrow> string \<Rightarrow> prefs_global \<Rightarrow> py_error + (string \<times> prefs_global)" where
  \<comment> \<open>\<open>_get_color_for(param_name, value)\<close>; the namespace is \<open>param_name or "default"\<close>\<close>
  "get_color_for param_name value g =
     (let key = (if param_name = [] then ''default'' else param_name)
      in case allocate OKABE_ITO key value (color_maps g) of
           Inl e \<Rightarrow> Inl e
         | Inr (symb, maps) \<Rightarrow> Inr (symb, g\<lparr>color_maps := maps\<rparr>))"

definition get_marker_for ::
  "string \<Rightarrow> string \<Rightarrow> prefs_global \<Rightarrow> py_error + (string \<times> prefs_global)" where
  \<comment> \<open>\<open>_get_marker_for(param_name, value)\<close>; an empty namespace gives \<open>"o"\<close>\<close>
  "get_marker_for param_name value g =
     (if param_name = [] then Inr (''o'', g)
      else case allocate MARKER_POOL param_name value (marker_maps g) of
             Inl e \<Rightarrow> Inl e
           | Inr (symb, maps) \<Rightarrow> Inr (symb, g\<lparr>marker_maps := maps\<rparr>))"

fun get_colors_for :: "string \<Rightarrow> string list \<Rightarrow> prefs_global \<Rightarrow> py_error + (string list \<times> prefs_global)" where
  \<comment> \<open>successive calls of \<open>_get_color_for\<close> in one namespace, collecting the colours\<close>
  "get_colors_for ns [] g = Inr ([], g)"
| "get_colors_for ns (v # vs) g =
     (case get_color_for ns v g of
        Inl e \<Rightarrow> Inl e
      | Inr (symb, g1) \<Rightarrow>
          (case get_colors_for ns vs g1 of
             Inl e \<Rightarrow> Inl e
           | Inr (symbs, g2) \<Rightarrow> Inr (symb # symbs, g2)))"

definition empty_prefs :: prefs_global where
  \<comment> \<open>the style maps of \<open>_default_prefs()\<close>\<close>
  "empty_prefs = \<lparr>color_maps = [], marker_maps = []\<rparr>"

section \<open>Record parser\<close>

datatype kind = Inplane | Crossplane

record curve =
  depth_mm :: "real option"
  xs :: "real list"
  ys :: "real list"

text \<open>The local variables of \<open>parse_mcc_profiles_all\<close>; \<open>result\<close> has the two keys
  \<open>"inplane"\<close> and \<open>"crossplane"\<close> until the end of the function.\<close>

record pstate =
  current_kind :: "kind option"
  current_depth :: "real option"
  in_data :: bool
  buf_xs :: "real list"
  buf_ys :: "real list"
  result_inplane :: "curve list"
  result_crossplane :: "curve list"

definition init_pstate :: pstate where
  "init_pstate = \<lparr>current_kind = None, current_depth = None, in_data = False,
                   buf_xs = [], buf_ys = [], result_inplane = [], result_crossplane = []\<rparr>"

definition commit :: "pstate \<Rightarrow> pstate" where
  \<comment> \<open>the inner function \<open>commit()\<close>\<close>
  "commit s =
     (let c = \<lparr>depth_mm = current_depth s, xs = buf_xs s, ys = buf_ys s\<rparr>;
          s1 = (if buf_xs s \<noteq> [] \<and> buf_ys s \<noteq> [] then
                  (case current_kind s of
                     Some Inplane \<Rightarrow> s\<lparr>result_inplane := result_inplane s @ [c]\<rparr>
                   | Some Crossplane \<Rightarrow> s\<lparr>result_crossplane := result_crossplane s @ [c]\<rparr>
                   | None \<Rightarrow> s)
                else s)
      in s1\<lparr>buf_xs := [], buf_ys := []\<rparr>)"

definition sample_line :: "(string \<Rightarrow> real option) \<Rightarrow> pstate \<Rightarrow> string \<Rightarrow> pstate" where
  \<comment> \<open>the last branch of the loop: \<open>xs.append(float(parts[0]))\<close> runs before
      \<open>ys.append(float(parts[1]))\<close>, and \<open>ValueError\<close> from either is swallowed\<close>
  "sample_line pf s line =
     (case split_ws line of
        p0 # p1 # _ \<Rightarrow>
          (case pf p0 of
             None \<Rightarrow> s
           | Some x \<Rightarrow>
               (case pf p1 of
                  None \<Rightarrow> s\<lparr>buf_xs := buf_xs s @ [x]\<rparr>
                | Some y \<Rightarrow> s\<lparr>buf_xs := buf_xs s @ [x], buf_ys := buf_ys s @ [y]\<rparr>))
      | _ \<Rightarrow> s)"

definition step :: "(string \<Rightarrow> real option) \<Rightarrow> pstate \<Rightarrow> string \<Rightarrow> pstate" where
  \<comment> \<open>one iteration of \<open>for raw in lines\<close>\<close>
  "step pf s raw =
     (let line = strip raw in
      if startswith line ''SCAN_CURVETYPE='' then
        (let s1 = (if in_data s then (commit s)\<lparr>in_data := False\<rparr> else s);
             val = upper (strip (after_eq line))
         in s1\<lparr>current_kind :=
                  (if contains val ''INPLANE_PROFILE'' then Some Inplane
                   else if contains val ''CROSSPLANE_PROFILE'' then Some Crossplane
                   else None)\<rparr>)
      else if startswith line ''SCAN_DEPTH='' then
        s\<lparr>current_depth := pf (strip (after_eq line))\<rparr>
      else if contains line ''BEGIN_DATA'' then
        s\<lparr>in_data := True, buf_xs := [], buf_ys := []\<rparr>
      else if contains line ''END_DATA'' then
        (if in_data s then commit s else s)\<lparr>in_data := False\<rparr>
      else if in_data s \<and> current_kind s \<noteq> None then sample_line pf s line
      else s)"

definition run_lines :: "(string \<Rightarrow> real option) \<Rightarrow> pstate \<Rightarrow> string list \<Rightarrow> pstate" where
  "run_lines pf s lines = foldl (step pf) s lines"

definition finish :: "pstate \<Rightarrow> (kind \<times> curve list) list" where
  \<comment> \<open>after the loop: the pending commit, then the empty orientations are popped\<close>
  "finish s =
     (let s1 = (if in_data s then commit s else s)
      in (if result_inplane s1 = [] then [] else [(Inplane, result_inplane s1)]) @
         (if result_crossplane s1 = [] then [] else [(Crossplane, result_crossplane s1)]))"

definition parse_mcc_profiles_all ::
  "(string \<Rightarrow> real option) \<Rightarrow> string list \<Rightarrow> (kind \<times> curve list) list" where
  \<comment> \<open>\<open>parse_mcc_profiles_all\<close> on the lines of a file that could be read\<close>
  "parse_mcc_profiles_all pf lines = finish (run_lines pf init_pstate lines)"

subsection \<open>Lines and blocks of a profile file\<close>

text \<open>
  The branches of the loop classify a line; the predicates below name these classes, and
  a block gathers the lines of one profile curve: its curve-type and depth directives,
  the begin marker, the rows and the end marker.
\<close>

definition sample_of :: "(string \<Rightarrow> real option) \<Rightarrow> string \<Rightarrow> (real \<times> real) option" where
  \<comment> \<open>the sample of a well-formed sample line: at least two tokens, the first two numeric\<close>
  "sample_of pf raw =
     (case split_ws (strip raw) of
        p0 # p1 # _ \<Rightarrow>
          (case pf p0 of
             None \<Rightarrow> None
           | Some x \<Rightarrow> (case pf p1 of None \<Rightarrow> None | Some y \<Rightarrow> Some (x, y)))
      | _ \<Rightarrow> None)"

definition data_line :: "string \<Rightarrow> bool" where
  \<comment> \<open>a line that passes the four directive and marker tests of the loop\<close>
  "data_line raw \<longleftrightarrow>
     (let line = strip raw
      in \<not> startswith line ''SCAN_CURVETYPE='' \<and> \<not> startswith line ''SCAN_DEPTH='' \<and>
         \<not> contains line ''BEGIN_DATA'' \<and> \<not> contains line ''END_DATA'')"

definition begin_line :: "string \<Rightarrow> bool" where
  \<comment> \<open>a line taken by the \<open>BEGIN_DATA\<close> branch\<close>
  "begin_line raw \<longleftrightarrow>
     (let line = strip raw
      in \<not> startswith line ''SCAN_CURVETYPE='' \<and> \<not> startswith line ''SCAN_DEPTH='' \<and>
         contains line ''BEGIN_DATA'')"

definition end_line :: "string \<Rightarrow> bool" where
  \<comment> \<open>a line taken by the \<open>END_DATA\<close> branch\<close>
  "end_line raw \<longleftrightarrow>
     (let line = strip raw
      in \<not> startswith line ''SCAN_CURVETYPE='' \<and> \<not> startswith line ''SCAN_DEPTH='' \<and>
         \<not> contains line ''BEGIN_DATA'' \<and> contains line ''END_DATA'')"

definition curvetype_line :: "string \<Rightarrow> bool" where
  \<comment> \<open>a line taken by the \<open>SCAN_CURVETYPE=\<close> branch\<close>
  "curvetype_line raw \<longleftrightarrow> startswith (strip raw) ''SCAN_CURVETYPE=''"

definition committed :: "pstate \<Rightarrow> curve list \<times> curve list" where
  \<comment> \<open>the curves committed so far, per orientation\<close>
  "committed s = (result_inplane s, result_crossplane s)"

definition curves_ok :: "pstate \<Rightarrow> bool" where
  "curves_ok s \<longleftrightarrow> list_all (\<lambda>c. xs c \<noteq> [] \<and> ys c \<noteq> []) (result_inplane s @ result_crossplane s)"

definition half_parsed :: "(string \<Rightarrow> real option) \<Rightarrow> string \<Rightarrow> bool" where
  \<comment> \<open>a line whose first token is numeric and whose second token is not\<close>
  "half_parsed pf raw \<longleftrightarrow>
     (case split_ws (strip raw) of
        p0 # p1 # _ \<Rightarrow> pf p0 \<noteq> None \<and> pf p1 = None
      | _ \<Rightarrow> False)"

definition kind_of_line :: "string \<Rightarrow> kind option" where
  \<comment> \<open>the orientation a \<open>SCAN_CURVETYPE=\<close> line selects\<close>
  "kind_of_line raw =
     (let val = upper (strip (after_eq (strip raw)))
      in if contains val ''INPLANE_PROFILE'' then Some Inplane
         else if contains val ''CROSSPLANE_PROFILE'' then Some Crossplane
         else None)"

definition depth_line :: "string \<Rightarrow> bool" where
  \<comment> \<open>a line taken by the \<open>SCAN_DEPTH=\<close> branch\<close>
  "depth_line raw \<longleftrightarrow>
     \<not> startswith (strip raw) ''SCAN_CURVETYPE='' \<and> startswith (strip raw) ''SCAN_DEPTH=''"

definition depth_of_line :: "(string \<Rightarrow> real option) \<Rightarrow> string \<Rightarrow> real option" where
  "depth_of_line pf raw = pf (strip (after_eq (strip raw)))"

type_synonym block = "string \<times> string \<times> string \<times> string list \<times> string"

fun block_lines :: "block \<Rightarrow> string list" where
  "block_lines (ct, dp, b, rows, e) = ct # dp # b # rows @ [e]"

fun block_kind :: "block \<Rightarrow> kind option" where
  "block_kind (ct, dp, b, rows, e) = kind_of_line ct"

fun well_formed_block :: "(string \<Rightarrow> real option) \<Rightarrow> block \<Rightarrow> bool" where
  "well_formed_block pf (ct, dp, b, rows, e) \<longleftrightarrow>
     curvetype_line ct \<and> kind_of_line ct \<noteq> None \<and> depth_line dp \<and> begin_line b \<and>
     list_all (\<lambda>l. data_line l \<and> \<not> half_parsed pf l) rows \<and>
     list_ex (\<lambda>l. sample_of pf l \<noteq> None) rows \<and> end_line e"

fun curve_of :: "(string \<Rightarrow> real option) \<Rightarrow> block \<Rightarrow> curve" where
  "curve_of pf (ct, dp, b, rows, e) =
     \<lparr>depth_mm = depth_of_line pf dp,
      xs = map fst (List.map_filter (sample_of pf) rows),
      ys = map snd (List.map_filter (sample_of pf) rows)\<rparr>"

section \<open>Parameter derivation\<close>

definition DEFAULT_SAD_CM :: real where
  "DEFAULT_SAD_CM = 100"

fun pick :: "(string \<times> string) list \<Rightarrow> string list \<Rightarrow> string option" where
  \<comment> \<open>\<open>_pick(meta, *keys)\<close>\<close>
  "pick meta [] = None"
| "pick meta (key # keys) =
     (case map_of meta key of
        Some v \<Rightarrow> if strip v \<noteq> [] then Some v else pick meta keys
      | None \<Rightarrow> pick meta keys)"



definition ssd_cm_from_mm :: "(string \<Rightarrow> real option) \<Rightarrow> (string \<times> string) list \<Rightarrow> real option" where
  \<comment> \<open>\<open>_ssd_cm_from_mm(meta)\<close>\<close>
  "ssd_cm_from_mm pf meta =
     (case as_float pf (pick meta [''SSD'', ''SCAN_SSD'', ''SOURCE_SURFACE_DISTANCE'', ''DSP'']) of
        None \<Rightarrow> None
      | Some val \<Rightarrow> Some (val / 10))"

definition jaws_from ::
  "(string \<Rightarrow> real option) \<Rightarrow> (string \<times> string) list \<Rightarrow> real option
     \<Rightarrow> real option \<times> real option \<times> real option" where
  \<comment> \<open>\<open>_jaws_from(meta, depth_mm_for_guess)\<close>\<close>
  "jaws_from pf meta depth_mm_for_guess =
     (let jawx0 = as_float pf (pick meta [''JAW_X'', ''FIELD_X'', ''COLL_X'']);
          jawy0 = as_float pf (pick meta [''JAW_Y'', ''FIELD_Y'', ''COLL_Y'']);
          rf_x_mm = as_float pf (pick meta [''FIELD_INPLANE'', ''FIELD_INPLANE'']);
          rf_y_mm = as_float pf (pick meta [''FIELD_CROSSPLANE'', ''FIELD_CROSSPLANE'']);
          (jawx, jawy) =
            (if jawx0 = None \<or> jawy0 = None then
               (case (rf_x_mm, rf_y_mm) of
                  (Some rx, Some ry) \<Rightarrow> (Some (rx / 10), Some (ry / 10))
                | _ \<Rightarrow> (jawx0, jawy0))
             else (jawx0, jawy0));
          ssd_cm = ssd_cm_from_mm pf meta;
          refdef = upper (strip (case pick meta [''FIELD_DEFINED'', ''FIELD_REFERENCE'', ''FIELD_AT''] of
                                   None \<Rightarrow> [] | Some t \<Rightarrow> t));
          ref_depth_cm = map_option (\<lambda>d. d / 10) (as_float pf (pick meta [''FIELD_DEPTH'']));
          d_ref0 =
            (if contains refdef ''ISO'' \<or> contains refdef ''ISOCENTER'' \<or> contains refdef ''SAD''
               then Some DEFAULT_SAD_CM
             else if contains refdef ''SSD'' \<and> ssd_cm \<noteq> None then ssd_cm
             else if contains refdef ''DEPTH'' then
               (case (ssd_cm, ref_depth_cm) of
                  (Some s, Some r) \<Rightarrow> Some (s + r)
                | _ \<Rightarrow> None)
             else None);
          d_ref =
            (case d_ref0 of
               Some d \<Rightarrow> Some d
             | None \<Rightarrow>
                 (let depth_cm_guess = map_option (\<lambda>d. d / 10) depth_mm_for_guess
                  in case (ssd_cm, depth_cm_guess) of
                       (Some s, Some g) \<Rightarrow> Some (s + g)
                     | (Some s, None) \<Rightarrow> Some s
                     | (None, _) \<Rightarrow> None))
      in (jawx, jawy, d_ref))"

definition scale_jaw_to_100 :: "real option \<Rightarrow> real option \<Rightarrow> py_error + real option" where
  \<comment> \<open>\<open>_scale_jaw_to_100(jaw_raw_cm, d_ref_cm)\<close>\<close>
  "scale_jaw_to_100 jaw_raw_cm d_ref_cm =
     (case (jaw_raw_cm, d_ref_cm) of
        (Some jaw, Some d) \<Rightarrow>
          if d = 0 then Inr jaw_raw_cm
          else (case truediv DEFAULT_SAD_CM d of
                  Inl e \<Rightarrow> Inl e
                | Inr q \<Rightarrow> Inr (Some (jaw * q)))
      | _ \<Rightarrow> Inr jaw_raw_cm)"

definition fov_at_depth_pair ::
  "(string \<Rightarrow> real option) \<Rightarrow> (string \<times> string) list \<Rightarrow> real \<Rightarrow> py_error + (real \<times> real) option" where
  \<comment> \<open>\<open>_fov_at_depth_pair(meta, depth_cm)\<close>\<close>
  "fov_at_depth_pair pf meta depth_cm =
     (case ssd_cm_from_mm pf meta of
        None \<Rightarrow> Inr None
      | Some ssd_cm \<Rightarrow>
          (case jaws_from pf meta (Some (depth_cm * 10)) of
             (jawx, jawy, d_ref) \<Rightarrow>
               (case scale_jaw_to_100 jawx d_ref of
                  Inl e \<Rightarrow> Inl e
                | Inr jawx100 \<Rightarrow>
                    (case scale_jaw_to_100 jawy d_ref of
                       Inl e \<Rightarrow> Inl e
                     | Inr jawy100 \<Rightarrow>
                         (case (jawx100, jawy100) of
                            (Some jx, Some jy) \<Rightarrow>
                              Inr (Some (jx * (ssd_cm + depth_cm) / DEFAULT_SAD_CM,
                                         jy * (ssd_cm + depth_cm) / DEFAULT_SAD_CM))
                          | _ \<Rightarrow> Inr None)))))"

section \<open>Curve selector\<close>

fun match_depths :: "curve list \<Rightarrow> real \<Rightarrow> (real list \<times> real list) list" where
  \<comment> \<open>the inner function \<open>match_depths(seq, target_cm)\<close> of \<open>_plot_profiles_for_row\<close>:
      \<open>dmm / 10.0\<close>, the subtraction and the literal \<open>0.05\<close> are binary64 values\<close>
  "match_depths [] target_cm = []"
| "match_depths (e # seq) target_cm =
     (case depth_mm e of
        None \<Rightarrow> match_depths seq target_cm
      | Some dmm \<Rightarrow>
          (let dcm = fl (dmm / 10)
           in if \<bar>fl (dcm - target_cm)\<bar> \<le> fl (5 / 100) then (xs e, ys e) # match_depths seq target_cm
              else match_depths seq target_cm))"

definition select_curves ::
  "bool \<Rightarrow> bool \<Rightarrow> curve list \<Rightarrow> curve list \<Rightarrow> real
     \<Rightarrow> (real list \<times> real list) list \<times> (real list \<times> real list) list" where
  \<comment> \<open>the curves \<open>_plot_profiles_for_row\<close> draws at one target depth: those of the
      in-plane list when \<open>want_in\<close>, those of the cross-plane list when \<open>want_cross\<close>\<close>
  "select_curves want_in want_cross inplane_list cross_list depth_cm =
     (if want_in \<and> inplane_list \<noteq> [] then match_depths inplane_list depth_cm else [],
      if want_cross \<and> cross_list \<noteq> [] then match_depths cross_list depth_cm else [])"

section \<open>Style allocator: properties\<close>

lemma map_of_setdefault_same:
  "map_of (setdefault k v d) k = (case map_of d k of Some w \<Rightarrow> Some w | None \<Rightarrow> Some v)"
proof (cases "k \<in> fst ` set d")
  case True
  then obtain w where "map_of d k = Some w"
    by (metis map_of_eq_None_iff not_Some_eq)
  with True show ?thesis by (simp add: setdefault_def)
next
  case False
  then have "map_of d k = None" by (simp add: map_of_eq_None_iff)
  with False show ?thesis by (simp add: setdefault_def map_add_def)
qed

lemma map_of_setdefault_other:
  "k2 \<noteq> k \<Longrightarrow> map_of (setdefault k v d) k2 = map_of d k2"
  by (simp add: setdefault_def map_add_def split: option.splits)

lemma setdefault_present:
  "map_of d k = Some w \<Longrightarrow> setdefault k v d = d"
  by (auto simp: setdefault_def dest: map_of_SomeD intro: rev_image_eqI)

lemma pool_index_in_range:
  "pool \<noteq> [] \<Longrightarrow> n mod max 1 (length pool) < length pool"
  by (cases pool) simp_all

lemma next_from_pool_total:
  assumes "pool \<noteq> []"
  shows "\<exists>s. next_from_pool used pool = Inr s"
proof (cases "find (\<lambda>val. val \<notin> used) pool")
  case None
  have "next_from_pool used pool = Inr (pool ! (card used mod max 1 (length pool)))"
    unfolding next_from_pool_def Let_def None
    using pool_index_in_range[OF assms, of "card used"] by simp
  then show ?thesis by blast
next
  case (Some a)
  then have "next_from_pool used pool = Inr a"
    by (simp add: next_from_pool_def)
  then show ?thesis by blast
qed

lemma next_from_pool_in_pool:
  "next_from_pool used pool = Inr s \<Longrightarrow> s \<in> set pool"
  by (auto simp: next_from_pool_def Let_def find_Some_iff split: option.splits if_splits)

lemma allocate_total:
  "pool \<noteq> [] \<Longrightarrow> \<exists>s m. allocate pool key v maps = Inr (s, m)"
proof -
  assume ne: "pool \<noteq> []"
  obtain pm where pm: "map_of (setdefault key [] maps) key = Some pm"
    by (cases "map_of maps key") (simp_all add: map_of_setdefault_same)
  obtain s where s: "next_from_pool (set (map snd pm)) pool = Inr s"
    using next_from_pool_total[OF ne] by blast
  show ?thesis
    using pm s by (cases "map_of pm (normalize_key v)") (simp_all add: allocate_def Let_def)
qed

lemma allocate_other_ns:
  "allocate pool key v maps = Inr (s, m) \<Longrightarrow> k2 \<noteq> key \<Longrightarrow> map_of m k2 = map_of maps k2"
  by (auto simp: allocate_def Let_def map_of_setdefault_other update_conv' split: option.splits sum.splits)

lemma allocate_lookup:
  "allocate pool key v maps = Inr (s, m) \<Longrightarrow>
     \<exists>pm. map_of m key = Some pm \<and> map_of pm (normalize_key v) = Some s"
  by (auto simp: allocate_def Let_def update_conv' split: option.splits sum.splits)

lemma allocate_present:
  "map_of maps key = Some pm \<Longrightarrow> map_of pm (normalize_key v) = Some s \<Longrightarrow>
     allocate pool key v maps = Inr (s, maps)"
  by (simp add: allocate_def Let_def setdefault_present)

lemma allocate_idem:
  "allocate pool key v maps = Inr (s, m) \<Longrightarrow> normalize_key v' = normalize_key v \<Longrightarrow>
     allocate pool key v' m = Inr (s, m)"
  using allocate_lookup[of pool key v maps s m] allocate_present[of m key _ v' s pool]
  by auto

lemma pools_nonempty: "OKABE_ITO \<noteq> []" "MARKER_POOL \<noteq> []"
  by (simp_all add: OKABE_ITO_def MARKER_POOL_def)

lemma get_color_for_total: "\<exists>s g'. get_color_for ns v g = Inr (s, g')"
proof -
  obtain s m where "allocate OKABE_ITO (if ns = [] then ''default'' else ns) v (color_maps g) = Inr (s, m)"
    using allocate_total[OF pools_nonempty(1)] by blast
  then show ?thesis by (simp add: get_color_for_def)
qed

lemma get_marker_for_total: "\<exists>s g'. get_marker_for ns v g = Inr (s, g')"
proof (cases "ns = []")
  case True
  then show ?thesis by (simp add: get_marker_for_def)
next
  case False
  obtain s m where "allocate MARKER_POOL ns v (marker_maps g) = Inr (s, m)"
    using allocate_total[OF pools_nonempty(2)] by blast
  with False show ?thesis by (simp add: get_marker_for_def)
qed

lemma next_from_pool_exhausted:
  assumes "set pool \<subseteq> used" and "card used = length pool" and "pool \<noteq> []"
  shows "next_from_pool used pool = Inr (pool ! 0)"
proof -
  have "find (\<lambda>val. val \<notin> used) pool = None"
    using assms(1) by (auto simp: find_None_iff)
  moreover have "card used mod max 1 (length pool) = 0"
    using assms(2) assms(3) by (cases pool) simp_all
  ultimately show ?thesis
    using assms(3) by (simp add: next_from_pool_def Let_def)
qed

text \<open>
  C1. Once every pool symbol is in use, a new value is said to receive
  \<open>pool[allocation_count mod pool_size]\<close>, so that forced reuse cycles through the pool.
  The code indexes the pool with the number of distinct symbols in use, which stays at the
  pool size: the ninth and the tenth value of a namespace both receive the first colour,
  where the tenth should receive \<open>OKABE_ITO ! (9 mod 8)\<close>, the second colour.
\<close>

theorem forced_reuse_repeats_first_colour:
  "map_sum id fst (get_colors_for ''energy''
      [''v1'', ''v2'', ''v3'', ''v4'', ''v5'', ''v6'', ''v7'', ''v8'', ''v9'', ''v10''] empty_prefs)
   = Inr [''#0072B2'', ''#E69F00'', ''#009E73'', ''#D55E00'', ''#CC79A7'', ''#56B4E9'', ''#F0E442'',
          ''#000000'', ''#0072B2'', ''#0072B2'']
   \<and> OKABE_ITO ! (9 mod length OKABE_ITO) = ''#E69F00''"
  by code_simp

text \<open>
  C7. Namespaces are isolated: an allocation of a colour (or marker) in one namespace leaves
  the map of every other namespace as it was, and leaves the maps of the other allocator
  kind untouched; the same value \<open>"6"\<close> receives different colours in the namespaces
  \<open>"energy"\<close> and \<open>"fov@depth"\<close>.
\<close>

theorem namespace_isolation:
  "(get_color_for n1 v g = Inr (s, g') \<and> n2 \<noteq> (if n1 = [] then ''default'' else n1)
      \<longrightarrow> map_of (color_maps g') n2 = map_of (color_maps g) n2 \<and> marker_maps g' = marker_maps g)
   \<and> (get_marker_for n1 v g = Inr (s, g') \<and> n2 \<noteq> n1
      \<longrightarrow> map_of (marker_maps g') n2 = map_of (marker_maps g) n2 \<and> color_maps g' = color_maps g)
   \<and> (\<exists>g1 g2 g3 a b.
         get_color_for ''energy'' ''10'' empty_prefs = Inr (a, g1)
         \<and> get_color_for ''energy'' ''6'' g1 = Inr (b, g2)
         \<and> get_color_for ''fov@depth'' ''6'' g2 = Inr (a, g3)
         \<and> a \<noteq> b)"
proof (intro conjI impI)
  assume a: "get_color_for n1 v g = Inr (s, g') \<and> n2 \<noteq> (if n1 = [] then ''default'' else n1)"
  let ?key = "if n1 = [] then ''default'' else n1"
  from a obtain m where m: "allocate OKABE_ITO ?key v (color_maps g) = Inr (s, m)"
    and g': "g' = g\<lparr>color_maps := m\<rparr>"
    by (auto simp: get_color_for_def split: sum.splits)
  from a have "n2 \<noteq> ?key" by simp
  from allocate_other_ns[OF m this] g'
  show "map_of (color_maps g') n2 = map_of (color_maps g) n2" by simp
  from g' show "marker_maps g' = marker_maps g" by simp
next
  assume a: "get_marker_for n1 v g = Inr (s, g') \<and> n2 \<noteq> n1"
  show "map_of (marker_maps g') n2 = map_of (marker_maps g) n2"
  proof (cases "n1 = []")
    case True
    with a show ?thesis by (simp add: get_marker_for_def)
  next
    case False
    with a obtain m where m: "allocate MARKER_POOL n1 v (marker_maps g) = Inr (s, m)"
      and g': "g' = g\<lparr>marker_maps := m\<rparr>"
      by (auto simp: get_marker_for_def split: sum.splits)
    from a have "n2 \<noteq> n1" by simp
    from allocate_other_ns[OF m this] g' show ?thesis by simp
  qed
  from a show "color_maps g' = color_maps g"
    by (auto simp: get_marker_for_def split: if_splits sum.splits)
next
  let ?g1 = "\<lparr>color_maps = [(''energy'', [(''10'', ''#0072B2'')])], marker_maps = []\<rparr>"
  let ?g2 = "\<lparr>color_maps = [(''energy'', [(''10'', ''#0072B2''), (''6'', ''#E69F00'')])], marker_maps = []\<rparr>"
  let ?g3 = "\<lparr>color_maps = [(''energy'', [(''10'', ''#0072B2''), (''6'', ''#E69F00'')]),
                            (''fov@depth'', [(''6'', ''#0072B2'')])], marker_maps = []\<rparr>"
  have 1: "get_color_for ''energy'' ''10'' empty_prefs = Inr (''#0072B2'', ?g1)" by code_simp
  have 2: "get_color_for ''energy'' ''6'' ?g1 = Inr (''#E69F00'', ?g2)" by code_simp
  have 3: "get_color_for ''fov@depth'' ''6'' ?g2 = Inr (''#0072B2'', ?g3)" by code_simp
  have 4: "''#0072B2'' \<noteq> ''#E69F00''" by simp
  from 1 2 3 4 show "\<exists>g1 g2 g3 a b.
         get_color_for ''energy'' ''10'' empty_prefs = Inr (a, g1)
         \<and> get_color_for ''energy'' ''6'' g1 = Inr (b, g2)
         \<and> get_color_for ''fov@depth'' ''6'' g2 = Inr (a, g3)
         \<and> a \<noteq> b" by blast
qed

theorem namespace_isolation_witness:
  "get_color_for ''energy'' ''6''
      \<lparr>color_maps = [(''fov@depth'', [(''6'', ''#E69F00'')])], marker_maps = [(''depth'', [(''5'', ''s'')])]\<rparr>
     = Inr (''#0072B2'',
        \<lparr>color_maps = [(''fov@depth'', [(''6'', ''#E69F00'')]), (''energy'', [(''6'', ''#0072B2'')])],
         marker_maps = [(''depth'', [(''5'', ''s'')])]\<rparr>)
   \<and> ''fov@depth'' \<noteq> (if ''energy'' = [] then ''default'' else ''energy'')
   \<and> map_of (color_maps \<lparr>color_maps = [(''fov@depth'', [(''6'', ''#E69F00'')]), (''energy'', [(''6'', ''#0072B2'')])],
         marker_maps = [(''depth'', [(''5'', ''s'')])]\<rparr>) ''fov@depth'' = Some [(''6'', ''#E69F00'')]
   \<and> get_marker_for ''energy'' ''6''
      \<lparr>color_maps = [(''fov@depth'', [(''6'', ''#E69F00'')])], marker_maps = [(''depth'', [(''5'', ''s'')])]\<rparr>
     = Inr (''o'',
        \<lparr>color_maps = [(''fov@depth'', [(''6'', ''#E69F00'')])],
         marker_maps = [(''depth'', [(''5'', ''s'')]), (''energy'', [(''6'', ''o'')])]\<rparr>)
   \<and> ''depth'' \<noteq> ''energy''
   \<and> map_of (marker_maps \<lparr>color_maps = [(''fov@depth'', [(''6'', ''#E69F00'')])],
         marker_maps = [(''depth'', [(''5'', ''s'')]), (''energy'', [(''6'', ''o'')])]\<rparr>) ''depth'' = Some [(''5'', ''s'')]"
proof -
  let ?g = "\<lparr>color_maps = [(''fov@depth'', [(''6'', ''#E69F00'')])], marker_maps = [(''depth'', [(''5'', ''s'')])]\<rparr>"
  let ?gc = "\<lparr>color_maps = [(''fov@depth'', [(''6'', ''#E69F00'')]), (''energy'', [(''6'', ''#0072B2'')])],
         marker_maps = [(''depth'', [(''5'', ''s'')])]\<rparr>"
  let ?gm = "\<lparr>color_maps = [(''fov@depth'', [(''6'', ''#E69F00'')])],
         marker_maps = [(''depth'', [(''5'', ''s'')]), (''energy'', [(''6'', ''o'')])]\<rparr>"
  have c: "get_color_for ''energy'' ''6'' ?g = Inr (''#0072B2'', ?gc)" by code_simp
  have m: "get_marker_for ''energy'' ''6'' ?g = Inr (''o'', ?gm)" by code_simp
  have n1: "''fov@depth'' \<noteq> (if ''energy'' = [] then ''default'' else ''energy'')" by simp
  have n2: "''depth'' \<noteq> ''energy''" by simp
  from namespace_isolation[where ?n1.0 = "''energy''" and v = "''6''" and g = ?g and s = "''#0072B2''"
      and g' = ?gc and ?n2.0 = "''fov@depth''"] c n1
  have c2: "map_of (color_maps ?gc) ''fov@depth'' = Some [(''6'', ''#E69F00'')]" by simp
  from namespace_isolation[where ?n1.0 = "''energy''" and v = "''6''" and g = ?g and s = "''o''"
      and g' = ?gm and ?n2.0 = "''depth''"] m n2
  have m2: "map_of (marker_maps ?gm) ''depth'' = Some [(''5'', ''s'')]" by simp
  from c n1 c2 m n2 m2 show ?thesis by blast
qed

text \<open>
  C8. Allocation is idempotent: a second call with the same namespace and a value with the
  same normalized key returns the symbol of the first call and leaves the preferences,
  hence the namespace's map, unchanged.
\<close>

theorem style_allocation_idempotent:
  "(get_color_for ns v g = Inr (s, g') \<and> normalize_key v' = normalize_key v
      \<longrightarrow> get_color_for ns v' g' = Inr (s, g'))
   \<and> (get_marker_for ns v g = Inr (s, g') \<and> normalize_key v' = normalize_key v
      \<longrightarrow> get_marker_for ns v' g' = Inr (s, g'))"
proof (intro conjI impI; elim conjE)
  assume a: "get_color_for ns v g = Inr (s, g')" and n: "normalize_key v' = normalize_key v"
  let ?key = "if ns = [] then ''default'' else ns"
  from a obtain m where m: "allocate OKABE_ITO ?key v (color_maps g) = Inr (s, m)"
    and g': "g' = g\<lparr>color_maps := m\<rparr>"
    by (auto simp: get_color_for_def split: sum.splits)
  from allocate_idem[OF m n] g' show "get_color_for ns v' g' = Inr (s, g')"
    by (simp add: get_color_for_def)
next
  assume a: "get_marker_for ns v g = Inr (s, g')" and n: "normalize_key v' = normalize_key v"
  show "get_marker_for ns v' g' = Inr (s, g')"
  proof (cases "ns = []")
    case True
    with a show ?thesis by (simp add: get_marker_for_def)
  next
    case False
    with a obtain m where m: "allocate MARKER_POOL ns v (marker_maps g) = Inr (s, m)"
      and g': "g' = g\<lparr>marker_maps := m\<rparr>"
      by (auto simp: get_marker_for_def split: sum.splits)
    from allocate_idem[OF m n] g' False show ?thesis
      by (simp add: get_marker_for_def)
  qed
qed

theorem style_allocation_idempotent_witness:
  "get_color_for ''energy'' ''6 MV'' empty_prefs
     = Inr (''#0072B2'', \<lparr>color_maps = [(''energy'', [(''6 mv'', ''#0072B2'')])], marker_maps = []\<rparr>)
   \<and> normalize_key '' 6 mv '' = normalize_key ''6 MV''
   \<and> get_color_for ''energy'' '' 6 mv '' \<lparr>color_maps = [(''energy'', [(''6 mv'', ''#0072B2'')])], marker_maps = []\<rparr>
     = Inr (''#0072B2'', \<lparr>color_maps = [(''energy'', [(''6 mv'', ''#0072B2'')])], marker_maps = []\<rparr>)
   \<and> get_marker_for ''energy'' ''6 MV'' empty_prefs
     = Inr (''o'', \<lparr>color_maps = [], marker_maps = [(''energy'', [(''6 mv'', ''o'')])]\<rparr>)
   \<and> get_marker_for ''energy'' '' 6 mv '' \<lparr>color_maps = [], marker_maps = [(''energy'', [(''6 mv'', ''o'')])]\<rparr>
     = Inr (''o'', \<lparr>color_maps = [], marker_maps = [(''energy'', [(''6 mv'', ''o'')])]\<rparr>)"
proof -
  let ?gc = "\<lparr>color_maps = [(''energy'', [(''6 mv'', ''#0072B2'')])], marker_maps = []\<rparr>"
  let ?gm = "\<lparr>color_maps = [], marker_maps = [(''energy'', [(''6 mv'', ''o'')])]\<rparr>"
  have c: "get_color_for ''energy'' ''6 MV'' empty_prefs = Inr (''#0072B2'', ?gc)"
    by code_simp
  have m: "get_marker_for ''energy'' ''6 MV'' empty_prefs = Inr (''o'', ?gm)"
    by code_simp
  have n: "normalize_key '' 6 mv '' = normalize_key ''6 MV''"
    by code_simp
  from style_allocation_idempotent[of "''energy''" "''6 MV''" empty_prefs "''#0072B2''" ?gc "'' 6 mv ''"] c n
  have c2: "get_color_for ''energy'' '' 6 mv '' ?gc = Inr (''#0072B2'', ?gc)" by blast
  from style_allocation_idempotent[of "''energy''" "''6 MV''" empty_prefs "''o''" ?gm "'' 6 mv ''"] m n
  have m2: "get_marker_for ''energy'' '' 6 mv '' ?gm = Inr (''o'', ?gm)" by blast
  from c n c2 m m2 show ?thesis by blast
qed

section \<open>Parameter derivation: properties\<close>









lemma scale_jaw_no_error: "\<exists>r. scale_jaw_to_100 jaw d_ref = Inr r"
  by (auto simp: scale_jaw_to_100_def truediv_def split: option.splits)

text \<open>
  C4. The field of view at depth \<open>D\<close> is \<open>jaw100 * (SSD + D) / 100\<close> on each axis, where
  \<open>jaw100\<close> is the jaw dimension rescaled to the 100-unit plane; it is absent when the SSD
  is absent or when either rescaled jaw dimension is absent; the computation raises no
  error. With SSD = 90, jaw100 = (10, 10) and D = 10 the result is (10, 10).
\<close>

theorem fov_at_depth_formula:
  "(ssd_cm_from_mm pf meta = None \<longrightarrow> fov_at_depth_pair pf meta D = Inr None)
   \<and> (ssd_cm_from_mm pf meta = Some ssd \<and> jaws_from pf meta (Some (D * 10)) = (jawx, jawy, d_ref)
        \<longrightarrow>
        (scale_jaw_to_100 jawx d_ref = Inr (Some jx100) \<and> scale_jaw_to_100 jawy d_ref = Inr (Some jy100)
           \<longrightarrow> fov_at_depth_pair pf meta D = Inr (Some (jx100 * (ssd + D) / 100, jy100 * (ssd + D) / 100)))
        \<and> (scale_jaw_to_100 jawx d_ref = Inr None \<or> scale_jaw_to_100 jawy d_ref = Inr None
           \<longrightarrow> fov_at_depth_pair pf meta D = Inr None))
   \<and> (\<exists>r. fov_at_depth_pair pf meta D = Inr r)"
proof (intro conjI impI)
  assume "ssd_cm_from_mm pf meta = None"
  then show "fov_at_depth_pair pf meta D = Inr None"
    by (simp add: fov_at_depth_pair_def)
next
  assume a: "ssd_cm_from_mm pf meta = Some ssd \<and> jaws_from pf meta (Some (D * 10)) = (jawx, jawy, d_ref)"
    and b: "scale_jaw_to_100 jawx d_ref = Inr (Some jx100) \<and> scale_jaw_to_100 jawy d_ref = Inr (Some jy100)"
  then show "fov_at_depth_pair pf meta D = Inr (Some (jx100 * (ssd + D) / 100, jy100 * (ssd + D) / 100))"
    by (simp add: fov_at_depth_pair_def DEFAULT_SAD_CM_def)
next
  assume a: "ssd_cm_from_mm pf meta = Some ssd \<and> jaws_from pf meta (Some (D * 10)) = (jawx, jawy, d_ref)"
    and b: "scale_jaw_to_100 jawx d_ref = Inr None \<or> scale_jaw_to_100 jawy d_ref = Inr None"
  obtain rx ry where r: "scale_jaw_to_100 jawx d_ref = Inr rx" "scale_jaw_to_100 jawy d_ref = Inr ry"
    using scale_jaw_no_error by blast
  with b have "rx = None \<or> ry = None" by auto
  with a r show "fov_at_depth_pair pf meta D = Inr None"
    by (auto simp: fov_at_depth_pair_def split: option.splits)
next
  obtain jawx jawy d_ref where j: "jaws_from pf meta (Some (D * 10)) = (jawx, jawy, d_ref)"
    by (cases "jaws_from pf meta (Some (D * 10))") auto
  obtain rx ry where r: "scale_jaw_to_100 jawx d_ref = Inr rx" "scale_jaw_to_100 jawy d_ref = Inr ry"
    using scale_jaw_no_error by blast
  show "\<exists>r. fov_at_depth_pair pf meta D = Inr r"
    using j r by (auto simp: fov_at_depth_pair_def split: option.splits)
qed

theorem fov_at_depth_formula_witness:
  "ssd_cm_from_mm float_dec [(''SSD'', ''900''), (''JAW_X'', ''10.0''), (''JAW_Y'', ''10.0'')] = Some 90
   \<and> jaws_from float_dec [(''SSD'', ''900''), (''JAW_X'', ''10.0''), (''JAW_Y'', ''10.0'')] (Some (10 * 10))
       = (Some 10, Some 10, Some 100)
   \<and> scale_jaw_to_100 (Some 10) (Some 100) = Inr (Some 10)
   \<and> fov_at_depth_pair float_dec [(''SSD'', ''900''), (''JAW_X'', ''10.0''), (''JAW_Y'', ''10.0'')] 10
       = Inr (Some (10, 10))
   \<and> ssd_cm_from_mm float_dec [(''JAW_X'', ''10.0''), (''JAW_Y'', ''10.0'')] = None
   \<and> fov_at_depth_pair float_dec [(''JAW_X'', ''10.0''), (''JAW_Y'', ''10.0'')] 10 = Inr None"
proof -
  let ?m = "[(''SSD'', ''900''), (''JAW_X'', ''10.0''), (''JAW_Y'', ''10.0'')]"
  let ?n = "[(''JAW_X'', ''10.0''), (''JAW_Y'', ''10.0'')]"
  have s: "ssd_cm_from_mm float_dec ?m = Some 90" by code_simp
  have j: "jaws_from float_dec ?m (Some (10 * 10)) = (Some 10, Some 10, Some 100)" by code_simp
  have c: "scale_jaw_to_100 (Some 10) (Some 100) = Inr (Some 10)" by code_simp
  have n: "ssd_cm_from_mm float_dec ?n = None" by code_simp
  from fov_at_depth_formula[where pf = float_dec and meta = ?m and D = 10 and ssd = 90 and jawx = "Some 10"
      and jawy = "Some 10" and d_ref = "Some 100" and ?jx100.0 = 10 and ?jy100.0 = 10] s j c
  have f: "fov_at_depth_pair float_dec ?m 10 = Inr (Some (10, 10))" by simp
  from fov_at_depth_formula[where pf = float_dec and meta = ?n and D = 10] n
  have g: "fov_at_depth_pair float_dec ?n 10 = Inr None" by blast
  from s j c f n g show ?thesis by blast
qed

text \<open>
  C9. Rescaling a jaw dimension to the 100-unit plane: with an absent or zero
  reference-plane distance the raw dimension is returned unchanged, and no division is
  attempted; otherwise the result is the raw dimension times \<open>100 / d\<close>. The function
  never raises \<open>ZeroDivisionError\<close>.
\<close>

theorem scale_jaw_guarded:
  "scale_jaw_to_100 (Some jaw) None = Inr (Some jaw)
   \<and> scale_jaw_to_100 (Some jaw) (Some 0) = Inr (Some jaw)
   \<and> (d \<noteq> 0 \<longrightarrow> scale_jaw_to_100 (Some jaw) (Some d) = Inr (Some (jaw * (100 / d))))
   \<and> scale_jaw_to_100 None d_ref = Inr None
   \<and> (\<exists>r. scale_jaw_to_100 jaw_raw d_ref = Inr r)"
  by (auto simp: scale_jaw_to_100_def truediv_def DEFAULT_SAD_CM_def split: option.splits)

theorem scale_jaw_guarded_witness:
  "(50::real) \<noteq> 0 \<and> scale_jaw_to_100 (Some 10) (Some 50) = Inr (Some 20)
   \<and> scale_jaw_to_100 (Some 10) (Some 0) = Inr (Some 10)"
  using scale_jaw_guarded[of 10 50 None None] by simp

lemma replace_comma_no_comma: "CHR '','' \<notin> set (replace_comma s)"
  by (auto simp: replace_comma_def)

text \<open>
  C10. The numeric-text converter returns nothing for \<open>None\<close>; for a string it strips
  the whitespace, replaces every comma by a full stop and hands the result to \<open>float\<close>,
  whose \<open>ValueError\<close> becomes an absent result. So \<open>"1,5"\<close> parses as 1.5, also
  between spaces, and \<open>"abc"\<close> or \<open>"1,5,0"\<close> give an absent result.
\<close>

theorem as_float_decimal_comma:
  "as_float pf None = None
   \<and> as_float pf (Some txt) = pf (replace_comma (strip txt))
   \<and> CHR '','' \<notin> set (replace_comma (strip txt))
   \<and> length (replace_comma (strip txt)) = length (strip txt)
   \<and> (\<forall>i < length (strip txt). replace_comma (strip txt) ! i =
         (if strip txt ! i = CHR '','' then CHR ''.'' else strip txt ! i))
   \<and> as_float float_dec (Some ''1,5'') = Some (3 / 2)
   \<and> as_float float_dec (Some '' 1,5 '') = as_float float_dec (Some ''1.5'')
   \<and> as_float float_dec (Some ''1,5,0'') = None
   \<and> as_float float_dec (Some ''abc'') = None"
proof -
  have "as_float float_dec (Some ''1,5'') = Some (3 / 2)" by code_simp
  moreover have "as_float float_dec (Some '' 1,5 '') = as_float float_dec (Some ''1.5'')" by code_simp
  moreover have "as_float float_dec (Some ''1,5,0'') = None" by code_simp
  moreover have "as_float float_dec (Some ''abc'') = None" by code_simp
  ultimately show ?thesis
    by (simp add: as_float_def replace_comma_no_comma) (simp add: replace_comma_def)
qed

theorem as_float_decimal_comma_witness:
  "as_float float_dec (Some '' 1,5 '') = float_dec ''1.5''
   \<and> (1::nat) < length (strip '' 1,5 '')
   \<and> replace_comma (strip '' 1,5 '') ! 1 = CHR ''.''"
proof -
  have s: "strip '' 1,5 '' = ''1,5''" by code_simp
  have r: "replace_comma ''1,5'' = ''1.5''" by code_simp
  from as_float_decimal_comma[of float_dec "'' 1,5 ''"] s r show ?thesis by simp
qed

section \<open>Curve selector: properties\<close>

lemma exp_up_bounds: "1 \<le> a \<Longrightarrow> 0 \<le> exp_up a \<and> 2 ^ nat (exp_up a) \<le> a \<and> a < 2 * 2 ^ nat (exp_up a)"
proof (induction a rule: exp_up.induct)
  case (1 a)
  show ?case
  proof (cases "2 \<le> a")
    case True
    then have "1 \<le> a / 2" by simp
    with 1 True have ih: "0 \<le> exp_up (a / 2)" "2 ^ nat (exp_up (a / 2)) \<le> a / 2"
      "a / 2 < 2 * 2 ^ nat (exp_up (a / 2))" by blast+
    have e: "exp_up a = exp_up (a / 2) + 1" using True by (subst exp_up.simps) simp
    have n: "nat (exp_up (a / 2) + 1) = Suc (nat (exp_up (a / 2)))" using ih(1) by simp
    show ?thesis using ih unfolding e n by simp
  next
    case False
    then have "exp_up a = 0" by (subst exp_up.simps) simp
    with 1 False show ?thesis by simp
  qed
qed

lemma exp_down_bounds:
  "0 < a \<Longrightarrow> a < 1 \<Longrightarrow> exp_down a < 0 \<and> 1 \<le> a * 2 ^ nat (- exp_down a) \<and> a * 2 ^ nat (- exp_down a) < 2"
proof (induction a rule: exp_down.induct)
  case (1 a)
  have e: "exp_down a = exp_down (2 * a) - 1" using 1(2,3) by (subst exp_down.simps) simp
  show ?case
  proof (cases "2 * a < 1")
    case True
    have "0 < a \<and> a < 1" "0 < 2 * a" using 1(2,3) by simp_all
    with 1(1) True have ih: "exp_down (2 * a) < 0" "1 \<le> 2 * a * 2 ^ nat (- exp_down (2 * a))"
      "2 * a * 2 ^ nat (- exp_down (2 * a)) < 2" by blast+
    have n: "nat (- (exp_down (2 * a) - 1)) = Suc (nat (- exp_down (2 * a)))" using ih(1) by simp
    have p: "a * 2 ^ Suc (nat (- exp_down (2 * a))) = 2 * a * 2 ^ nat (- exp_down (2 * a))" by simp
    show ?thesis using ih unfolding e n p by simp
  next
    case False
    then have z: "exp_down (2 * a) = 0" by (subst exp_down.simps) simp
    show ?thesis using 1(2,3) False unfolding e z by simp
  qed
qed

lemma round_half_even_error: "\<bar>of_int (round_half_even x) - x\<bar> \<le> 1 / 2"
proof -
  define r where "r = x - of_int \<lfloor>x\<rfloor>"
  have r: "0 \<le> r" "r < 1" unfolding r_def by linarith+
  have x: "x = of_int \<lfloor>x\<rfloor> + r" by (simp add: r_def)
  consider "r < 1 / 2" | "1 / 2 < r" | "r = 1 / 2" by linarith
  then show ?thesis
  proof cases
    case 1
    then have "round_half_even x = \<lfloor>x\<rfloor>" by (simp add: round_half_even_def Let_def r_def)
    then show ?thesis using r 1 by (simp add: r_def)
  next
    case 2
    then have "round_half_even x = \<lfloor>x\<rfloor> + 1" by (simp add: round_half_even_def Let_def r_def)
    then have "of_int (round_half_even x) - x = 1 - r" by (simp add: r_def)
    then show ?thesis using r 2 by simp
  next
    case 3
    then have "round_half_even x = \<lfloor>x\<rfloor> \<or> round_half_even x = \<lfloor>x\<rfloor> + 1"
      by (simp add: round_half_even_def Let_def r_def)
    then have "of_int (round_half_even x) - x = - r \<or> of_int (round_half_even x) - x = 1 - r"
      by (auto simp: r_def)
    then show ?thesis using 3 by auto
  qed
qed

lemma quantum_pos: "0 < quantum x"
  by (simp add: quantum_def Let_def)

lemma fl_error: "\<bar>fl x - x\<bar> \<le> quantum x / 2"
proof (cases "x = 0")
  case True
  then show ?thesis using quantum_pos[of x] by (simp add: fl_def)
next
  case False
  let ?q = "quantum x"
  have q: "0 < ?q" by (rule quantum_pos)
  have "fl x - x = (of_int (round_half_even (x / ?q)) - x / ?q) * ?q"
    using False q by (simp add: fl_def algebra_simps)
  then have "\<bar>fl x - x\<bar> = \<bar>of_int (round_half_even (x / ?q)) - x / ?q\<bar> * ?q"
    using q by (simp add: abs_mult)
  also have "\<dots> \<le> (1 / 2) * ?q"
    using round_half_even_error[of "x / ?q"] q by (intro mult_right_mono) simp_all
  finally show ?thesis by simp
qed

lemma match_depths_filter:
  "match_depths seq t =
     map (\<lambda>e. (xs e, ys e))
         (filter (\<lambda>e. case depth_mm e of
                        None \<Rightarrow> False
                      | Some dmm \<Rightarrow> \<bar>fl (fl (dmm / 10) - t)\<bar> \<le> fl (5 / 100)) seq)"
  by (induction seq) (simp_all add: Let_def split: option.splits)

lemma select_curves_orientation:
  "select_curves True False inplane_list cross_list t = (match_depths inplane_list t, [])"
  "select_curves False True inplane_list cross_list t = ([], match_depths cross_list t)"
  "select_curves True True inplane_list cross_list t
     = (match_depths inplane_list t, match_depths cross_list t)"
  by (cases inplane_list; cases cross_list; simp add: select_curves_def)+

text \<open>
  C5. At a target depth \<open>t\<close>, the curves selected are said to be exactly those whose depth,
  divided by 10, differs from \<open>t\<close> by at most 0.05. A target of 10 does match a curve at
  100.03 and not one at 100.6. At the boundary the code misses: the depths 100.5 and 99.5
  are binary64 values that differ from the target 10 by 0.05 exactly, yet the quotient
  \<open>100.5 / 10.0\<close> rounds up to a binary64 value above 10.05, the difference exceeds the
  binary64 value of \<open>0.05\<close>, and both curves are dropped.
\<close>

theorem boundary_depth_dropped:
  "match_depths [\<lparr>depth_mm = Some (201 / 2), xs = [1], ys = [2]\<rparr>] 10 = []
   \<and> \<bar>(201 / 2) / 10 - 10\<bar> \<le> (5 / 100 :: real)
   \<and> match_depths [\<lparr>depth_mm = Some (199 / 2), xs = [1], ys = [2]\<rparr>] 10 = []
   \<and> \<bar>(199 / 2) / 10 - 10\<bar> \<le> (5 / 100 :: real)
   \<and> fl (201 / 2) = 201 / 2 \<and> fl (199 / 2) = 199 / 2 \<and> fl 10 = 10
   \<and> match_depths [\<lparr>depth_mm = Some (fl (10003 / 100)), xs = [1], ys = [2]\<rparr>] 10 = [([1], [2])]
   \<and> match_depths [\<lparr>depth_mm = Some (fl (1006 / 10)), xs = [1], ys = [2]\<rparr>] 10 = []"
proof -
  have a: "match_depths [\<lparr>depth_mm = Some (201 / 2), xs = [1], ys = [2]\<rparr>] 10 = []"
    by code_simp
  have b: "match_depths [\<lparr>depth_mm = Some (199 / 2), xs = [1], ys = [2]\<rparr>] 10 = []"
    by code_simp
  have c: "fl (201 / 2) = 201 / 2" "fl (199 / 2) = 199 / 2" "fl 10 = 10"
    by code_simp+
  have d: "match_depths [\<lparr>depth_mm = Some (fl (10003 / 100)), xs = [1], ys = [2]\<rparr>] 10 = [([1], [2])]"
    by code_simp
  have e: "match_depths [\<lparr>depth_mm = Some (fl (1006 / 10)), xs = [1], ys = [2]\<rparr>] 10 = []"
    by code_simp
  have f: "\<bar>(201 / 2) / 10 - 10\<bar> \<le> (5 / 100 :: real)" "\<bar>(199 / 2) / 10 - 10\<bar> \<le> (5 / 100 :: real)"
    by simp_all
  from a b c d e f show ?thesis by blast
qed

section \<open>Record parser: properties\<close>

lemma commit_ok: "curves_ok s \<Longrightarrow> curves_ok (commit s)"
  by (auto simp: curves_ok_def commit_def Let_def split: option.splits kind.splits)

lemma sample_line_committed: "committed (sample_line pf s line) = committed s"
  by (auto simp: sample_line_def committed_def split: list.splits option.splits)

lemma step_ok: "curves_ok s \<Longrightarrow> curves_ok (step pf s raw)"
proof -
  assume ok: "curves_ok s"
  have c: "curves_ok (commit s)" using ok by (rule commit_ok)
  have upd: "\<And>t f. curves_ok (t\<lparr>in_data := f\<rparr>) = curves_ok t"
       "\<And>t f. curves_ok (t\<lparr>current_kind := f\<rparr>) = curves_ok t"
       "\<And>t f. curves_ok (t\<lparr>current_depth := f\<rparr>) = curves_ok t"
       "\<And>t f. curves_ok (t\<lparr>buf_xs := f\<rparr>) = curves_ok t"
       "\<And>t f. curves_ok (t\<lparr>buf_ys := f\<rparr>) = curves_ok t"
    by (simp_all add: curves_ok_def)
  have sl: "curves_ok (sample_line pf s (strip raw))"
    using ok sample_line_committed[of pf s "strip raw"] by (simp add: curves_ok_def committed_def)
  show ?thesis
    using ok c sl by (simp add: step_def Let_def upd)
qed

lemma run_lines_ok: "curves_ok s \<Longrightarrow> curves_ok (run_lines pf s lines)"
  unfolding run_lines_def
  by (induction lines arbitrary: s) (simp_all add: step_ok)

lemma init_ok: "curves_ok init_pstate"
  by (simp add: curves_ok_def init_pstate_def)

lemma finish_ok:
  assumes "curves_ok s" and "(k, cs) \<in> set (finish s)"
  shows "cs \<noteq> [] \<and> list_all (\<lambda>c. xs c \<noteq> [] \<and> ys c \<noteq> []) cs"
proof -
  let ?s1 = "if in_data s then commit s else s"
  have "curves_ok ?s1" using assms(1) by (simp add: commit_ok)
  then have a: "list_all (\<lambda>c. xs c \<noteq> [] \<and> ys c \<noteq> []) (result_inplane ?s1)"
    and b: "list_all (\<lambda>c. xs c \<noteq> [] \<and> ys c \<noteq> []) (result_crossplane ?s1)"
    by (simp_all add: curves_ok_def)
  from assms(2) have "(cs = result_inplane ?s1 \<or> cs = result_crossplane ?s1) \<and> cs \<noteq> []"
    by (auto simp: finish_def Let_def split: if_splits)
  with a b show ?thesis by auto
qed

lemma step_begin: "begin_line b \<Longrightarrow> step pf s b = s\<lparr>in_data := True, buf_xs := [], buf_ys := []\<rparr>"
  by (simp add: step_def begin_line_def Let_def)

lemma step_end: "end_line e \<Longrightarrow> step pf s e = (if in_data s then commit s else s)\<lparr>in_data := False\<rparr>"
  by (simp add: step_def end_line_def Let_def)

lemma step_data:
  "data_line l \<Longrightarrow> step pf s l = (if in_data s \<and> current_kind s \<noteq> None then sample_line pf s (strip l) else s)"
  by (simp add: step_def data_line_def Let_def)

lemma sample_line_invalid:
  "sample_of pf l = None \<Longrightarrow> buf_ys (sample_line pf s (strip l)) = buf_ys s
      \<and> in_data (sample_line pf s (strip l)) = in_data s"
  by (auto simp: sample_line_def sample_of_def split: list.splits option.splits)

lemma step_data_invalid:
  assumes "data_line l" and "sample_of pf l = None"
  shows "buf_ys (step pf s l) = buf_ys s \<and> in_data (step pf s l) = in_data s
         \<and> committed (step pf s l) = committed s"
  using sample_line_invalid[OF assms(2), of s] sample_line_committed[of pf s "strip l"]
  by (simp add: step_data[OF assms(1)])

lemma run_invalid_block:
  "\<forall>l \<in> set block. data_line l \<and> sample_of pf l = None \<Longrightarrow>
     buf_ys (run_lines pf s block) = buf_ys s \<and> in_data (run_lines pf s block) = in_data s
     \<and> committed (run_lines pf s block) = committed s"
proof (induction block arbitrary: s)
  case Nil
  then show ?case by (simp add: run_lines_def)
next
  case (Cons l block)
  from Cons.prems have l: "data_line l" "sample_of pf l = None"
    and rest: "\<forall>l \<in> set block. data_line l \<and> sample_of pf l = None" by simp_all
  have "run_lines pf s (l # block) = run_lines pf (step pf s l) block"
    by (simp add: run_lines_def)
  with Cons.IH[OF rest, of "step pf s l"] step_data_invalid[OF l, of s]
  show ?case by simp
qed

lemma commit_no_samples: "buf_ys s = [] \<Longrightarrow> committed (commit s) = committed s"
  by (simp add: commit_def committed_def Let_def)

lemma run_lines_append: "run_lines pf s (a @ b) = run_lines pf (run_lines pf s a) b"
  by (simp add: run_lines_def)

lemma run_lines_Cons: "run_lines pf s (l # ls) = run_lines pf (step pf s l) ls"
  by (simp add: run_lines_def)

lemma step_curvetype_committed:
  "curvetype_line t \<Longrightarrow> committed (step pf s t) = committed (if in_data s then commit s else s)"
  by (simp add: step_def curvetype_line_def Let_def committed_def)

lemma block_without_samples:
  assumes b: "begin_line b" and blk: "\<forall>l \<in> set block. data_line l \<and> sample_of pf l = None"
  shows "committed (run_lines pf s (b # block @ [e])) =
           (if end_line e \<or> curvetype_line e then committed s else committed (step pf (run_lines pf s (b # block)) e))"
    and "finish (run_lines pf s (b # block)) = finish (s\<lparr>in_data := False\<rparr>)"
proof -
  let ?s0 = "s\<lparr>in_data := True, buf_xs := [], buf_ys := []\<rparr>"
  let ?s1 = "run_lines pf ?s0 block"
  have r: "run_lines pf s (b # block) = ?s1"
    by (simp add: run_lines_Cons step_begin[OF b])
  from run_invalid_block[OF blk, of ?s0]
  have s1: "buf_ys ?s1 = []" "in_data ?s1" "committed ?s1 = committed s"
    by (simp_all add: committed_def)
  have c: "committed (commit ?s1) = committed s"
    using commit_no_samples[OF s1(1)] s1(3) by simp
  have "run_lines pf s (b # block @ [e]) = step pf ?s1 e"
    using r by (metis append_Cons run_lines_append run_lines_Cons run_lines_def foldl_Nil)
  moreover have "end_line e \<Longrightarrow> committed (step pf ?s1 e) = committed s"
    using c s1(2) by (simp add: step_end committed_def)
  moreover have "curvetype_line e \<Longrightarrow> committed (step pf ?s1 e) = committed s"
    using c s1(2) by (simp add: step_curvetype_committed)
  ultimately show "committed (run_lines pf s (b # block @ [e])) =
           (if end_line e \<or> curvetype_line e then committed s else committed (step pf (run_lines pf s (b # block)) e))"
    using r by auto
  show "finish (run_lines pf s (b # block)) = finish (s\<lparr>in_data := False\<rparr>)"
    using c s1(2) by (simp add: r finish_def Let_def committed_def)
qed

text \<open>
  C6. The profile parser never emits a curve without samples: every list in the result is
  non-empty and every curve in it has non-empty x and y sequences, so an orientation
  without committed curve is absent from the result. A data block none of whose rows
  yields a sample adds no curve, whether it is closed by an end marker, by a curve-type
  directive or by the end of the input.
\<close>

theorem no_empty_curve:
  "(\<forall>(k, cs) \<in> set (parse_mcc_profiles_all pf lines).
       cs \<noteq> [] \<and> list_all (\<lambda>c. xs c \<noteq> [] \<and> ys c \<noteq> []) cs)
   \<and> (begin_line b \<and> (\<forall>l \<in> set block. data_line l \<and> sample_of pf l = None)
        \<and> (end_line e \<or> curvetype_line e)
        \<longrightarrow> committed (run_lines pf s (b # block @ [e])) = committed s)
   \<and> (begin_line b \<and> (\<forall>l \<in> set block. data_line l \<and> sample_of pf l = None)
        \<longrightarrow> finish (run_lines pf s (b # block)) = finish (s\<lparr>in_data := False\<rparr>))"
proof (intro conjI impI)
  have "curves_ok (run_lines pf init_pstate lines)"
    using init_ok by (rule run_lines_ok)
  then show "\<forall>(k, cs) \<in> set (parse_mcc_profiles_all pf lines).
       cs \<noteq> [] \<and> list_all (\<lambda>c. xs c \<noteq> [] \<and> ys c \<noteq> []) cs"
    unfolding parse_mcc_profiles_all_def using finish_ok by blast
next
  assume "begin_line b \<and> (\<forall>l \<in> set block. data_line l \<and> sample_of pf l = None)
        \<and> (end_line e \<or> curvetype_line e)"
  then show "committed (run_lines pf s (b # block @ [e])) = committed s"
    using block_without_samples(1)[of b block pf s e] by simp
next
  assume "begin_line b \<and> (\<forall>l \<in> set block. data_line l \<and> sample_of pf l = None)"
  then show "finish (run_lines pf s (b # block)) = finish (s\<lparr>in_data := False\<rparr>)"
    using block_without_samples(2)[of b block pf s] by simp
qed

theorem no_empty_curve_witness:
  "parse_mcc_profiles_all float_dec
      [''SCAN_CURVETYPE=CROSSPLANE_PROFILE'', ''SCAN_DEPTH=100'', ''BEGIN_DATA'', ''abc def'', ''1.0 x'',
       ''END_DATA'', ''SCAN_CURVETYPE=INPLANE_PROFILE'', ''BEGIN_DATA'', ''1.0 2.0'', ''END_DATA'']
     = [(Inplane, [\<lparr>depth_mm = Some 100, xs = [1], ys = [2]\<rparr>])]
   \<and> list_all (\<lambda>c. xs c \<noteq> [] \<and> ys c \<noteq> []) [\<lparr>depth_mm = Some 100, xs = [1::real], ys = [2::real]\<rparr>]
   \<and> begin_line ''BEGIN_DATA''
   \<and> data_line ''abc def'' \<and> sample_of float_dec ''abc def'' = None
   \<and> data_line ''1.0 x'' \<and> sample_of float_dec ''1.0 x'' = None
   \<and> end_line ''END_DATA''
   \<and> committed (run_lines float_dec (init_pstate\<lparr>current_kind := Some Crossplane\<rparr>)
        (''BEGIN_DATA'' # [''abc def'', ''1.0 x''] @ [''END_DATA''])) = ([], [])
   \<and> finish (run_lines float_dec (init_pstate\<lparr>current_kind := Some Crossplane\<rparr>)
        (''BEGIN_DATA'' # [''abc def'', ''1.0 x''])) = []"
proof -
  let ?lines = "[''SCAN_CURVETYPE=CROSSPLANE_PROFILE'', ''SCAN_DEPTH=100'', ''BEGIN_DATA'', ''abc def'', ''1.0 x'',
       ''END_DATA'', ''SCAN_CURVETYPE=INPLANE_PROFILE'', ''BEGIN_DATA'', ''1.0 2.0'', ''END_DATA'']"
  let ?s = "init_pstate\<lparr>current_kind := Some Crossplane\<rparr>"
  have p: "parse_mcc_profiles_all float_dec ?lines = [(Inplane, [\<lparr>depth_mm = Some 100, xs = [1], ys = [2]\<rparr>])]"
    by code_simp
  have b: "begin_line ''BEGIN_DATA''" by code_simp
  have e: "end_line ''END_DATA''" by code_simp
  have d1: "data_line ''abc def'' \<and> sample_of float_dec ''abc def'' = None" by code_simp
  have d2: "data_line ''1.0 x'' \<and> sample_of float_dec ''1.0 x'' = None" by code_simp
  have d: "\<forall>l \<in> set [''abc def'', ''1.0 x'']. data_line l \<and> sample_of float_dec l = None"
    using d1 d2 by simp
  have c0: "committed ?s = ([], [])" by (simp add: committed_def init_pstate_def)
  have f0: "finish (?s\<lparr>in_data := False\<rparr>) = []" by (simp add: finish_def init_pstate_def)
  note t = no_empty_curve[where pf = float_dec and lines = ?lines and b = "''BEGIN_DATA''"
      and block = "[''abc def'', ''1.0 x'']" and e = "''END_DATA''" and s = ?s]
  from t p have a: "list_all (\<lambda>c. xs c \<noteq> [] \<and> ys c \<noteq> [])
      [\<lparr>depth_mm = Some 100, xs = [1::real], ys = [2::real]\<rparr>]" by simp
  from t b d e c0 have c: "committed (run_lines float_dec ?s
        (''BEGIN_DATA'' # [''abc def'', ''1.0 x''] @ [''END_DATA''])) = ([], [])" by simp
  from t b d f0 have f: "finish (run_lines float_dec ?s (''BEGIN_DATA'' # [''abc def'', ''1.0 x''])) = []"
    by simp
  from p a b d1 d2 e c f show ?thesis by blast
qed

lemma sample_line_clean:
  "\<not> half_parsed pf l \<Longrightarrow>
     sample_line pf s (strip l) =
       (case sample_of pf l of
          None \<Rightarrow> s
        | Some (x, y) \<Rightarrow> s\<lparr>buf_xs := buf_xs s @ [x], buf_ys := buf_ys s @ [y]\<rparr>)"
  by (auto simp: sample_line_def sample_of_def half_parsed_def split: list.splits option.splits)

lemma run_clean_rows:
  "in_data s \<Longrightarrow> current_kind s \<noteq> None \<Longrightarrow>
   list_all (\<lambda>l. data_line l \<and> \<not> half_parsed pf l) rows \<Longrightarrow>
     run_lines pf s rows =
       s\<lparr>buf_xs := buf_xs s @ map fst (List.map_filter (sample_of pf) rows),
         buf_ys := buf_ys s @ map snd (List.map_filter (sample_of pf) rows)\<rparr>"
proof (induction rows arbitrary: s)
  case Nil
  then show ?case by (simp add: run_lines_def List.map_filter_simps)
next
  case (Cons l rows)
  from Cons.prems have l: "data_line l" "\<not> half_parsed pf l"
    and rest: "list_all (\<lambda>l. data_line l \<and> \<not> half_parsed pf l) rows" by simp_all
  let ?s1 = "step pf s l"
  have s1: "?s1 = (case sample_of pf l of
          None \<Rightarrow> s
        | Some (x, y) \<Rightarrow> s\<lparr>buf_xs := buf_xs s @ [x], buf_ys := buf_ys s @ [y]\<rparr>)"
    using Cons.prems(1,2) by (simp add: step_data[OF l(1)] sample_line_clean[OF l(2)])
  then have inv: "in_data ?s1" "current_kind ?s1 \<noteq> None"
    using Cons.prems(1,2) by (auto split: option.splits)
  have "run_lines pf s (l # rows) = run_lines pf ?s1 rows"
    by (simp add: run_lines_Cons)
  also have "\<dots> = ?s1\<lparr>buf_xs := buf_xs ?s1 @ map fst (List.map_filter (sample_of pf) rows),
         buf_ys := buf_ys ?s1 @ map snd (List.map_filter (sample_of pf) rows)\<rparr>"
    using Cons.IH[OF inv rest] .
  also have "\<dots> = s\<lparr>buf_xs := buf_xs s @ map fst (List.map_filter (sample_of pf) (l # rows)),
         buf_ys := buf_ys s @ map snd (List.map_filter (sample_of pf) (l # rows))\<rparr>"
    unfolding s1 by (cases "sample_of pf l") (auto simp: List.map_filter_simps)
  finally show ?case .
qed

lemma step_curvetype:
  "curvetype_line t \<Longrightarrow>
     step pf s t = (if in_data s then (commit s)\<lparr>in_data := False\<rparr> else s)\<lparr>current_kind := kind_of_line t\<rparr>"
  by (simp add: step_def curvetype_line_def kind_of_line_def Let_def)

lemma step_depth:
  "depth_line t \<Longrightarrow> step pf s t = s\<lparr>current_depth := depth_of_line pf t\<rparr>"
  by (simp add: step_def depth_line_def depth_of_line_def Let_def)

lemma map_filter_nonempty:
  "list_ex (\<lambda>l. f l \<noteq> None) rows \<Longrightarrow> List.map_filter f rows \<noteq> []"
  by (induction rows) (auto simp: List.map_filter_simps split: option.splits)

lemma run_block:
  assumes wf: "well_formed_block pf blk" and idle: "\<not> in_data s"
  shows "committed (run_lines pf s (block_lines blk)) =
           (result_inplane s @ (if block_kind blk = Some Inplane then [curve_of pf blk] else []),
            result_crossplane s @ (if block_kind blk = Some Crossplane then [curve_of pf blk] else []))
         \<and> \<not> in_data (run_lines pf s (block_lines blk))"
proof -
  obtain ct dp b rows e where blk: "blk = (ct, dp, b, rows, e)"
    by (cases blk) auto
  from wf blk have ct: "curvetype_line ct" and k: "kind_of_line ct \<noteq> None" and dp: "depth_line dp"
    and b: "begin_line b" and rows: "list_all (\<lambda>l. data_line l \<and> \<not> half_parsed pf l) rows"
    and ex: "list_ex (\<lambda>l. sample_of pf l \<noteq> None) rows" and e: "end_line e"
    by simp_all
  let ?sm = "List.map_filter (sample_of pf) rows"
  let ?s3 = "s\<lparr>current_kind := kind_of_line ct, current_depth := depth_of_line pf dp,
               in_data := True, buf_xs := [], buf_ys := []\<rparr>"
  have "run_lines pf s [ct, dp, b] = ?s3"
    using idle by (simp add: run_lines_def step_curvetype[OF ct] step_depth[OF dp] step_begin[OF b])
  moreover have "run_lines pf ?s3 rows = ?s3\<lparr>buf_xs := map fst ?sm, buf_ys := map snd ?sm\<rparr>"
    using run_clean_rows[of ?s3 pf rows] k rows by simp
  ultimately have "run_lines pf s ([ct, dp, b] @ rows) = ?s3\<lparr>buf_xs := map fst ?sm, buf_ys := map snd ?sm\<rparr>"
    by (simp only: run_lines_append)
  then have "run_lines pf s (block_lines blk) =
      step pf (?s3\<lparr>buf_xs := map fst ?sm, buf_ys := map snd ?sm\<rparr>) e"
    unfolding blk by (simp add: run_lines_def)
  moreover have "?sm \<noteq> []" using ex by (rule map_filter_nonempty)
  ultimately show ?thesis
    using k by (cases "kind_of_line ct"; cases "the (kind_of_line ct)")
      (auto simp: step_end[OF e] commit_def committed_def Let_def blk)
qed

lemma run_blocks:
  "list_all (well_formed_block pf) blks \<Longrightarrow> \<not> in_data s \<Longrightarrow>
     committed (run_lines pf s (concat (map block_lines blks))) =
       (result_inplane s @ map (curve_of pf) (filter (\<lambda>blk. block_kind blk = Some Inplane) blks),
        result_crossplane s @ map (curve_of pf) (filter (\<lambda>blk. block_kind blk = Some Crossplane) blks))
     \<and> \<not> in_data (run_lines pf s (concat (map block_lines blks)))"
proof (induction blks arbitrary: s)
  case Nil
  then show ?case by (simp add: run_lines_def committed_def)
next
  case (Cons blk blks)
  from Cons.prems have wf: "well_formed_block pf blk" and rest: "list_all (well_formed_block pf) blks"
    by simp_all
  let ?s1 = "run_lines pf s (block_lines blk)"
  from run_block[OF wf Cons.prems(2)]
  have c1: "committed ?s1 =
           (result_inplane s @ (if block_kind blk = Some Inplane then [curve_of pf blk] else []),
            result_crossplane s @ (if block_kind blk = Some Crossplane then [curve_of pf blk] else []))"
    and i1: "\<not> in_data ?s1" by simp_all
  have "run_lines pf s (concat (map block_lines (blk # blks))) =
          run_lines pf ?s1 (concat (map block_lines blks))"
    by (simp add: run_lines_append)
  with Cons.IH[OF rest i1] c1 show ?case
    by (auto simp: committed_def)
qed

lemma clean_file_curves:
  assumes "list_all (well_formed_block pf) blks"
  shows "committed (run_lines pf init_pstate (concat (map block_lines blks))) =
           (map (curve_of pf) (filter (\<lambda>blk. block_kind blk = Some Inplane) blks),
            map (curve_of pf) (filter (\<lambda>blk. block_kind blk = Some Crossplane) blks))"
    and "length (xs (curve_of pf blk)) = length (ys (curve_of pf blk))"
proof -
  have "\<not> in_data init_pstate" by (simp add: init_pstate_def)
  from run_blocks[OF assms this]
  show "committed (run_lines pf init_pstate (concat (map block_lines blks))) =
           (map (curve_of pf) (filter (\<lambda>blk. block_kind blk = Some Inplane) blks),
            map (curve_of pf) (filter (\<lambda>blk. block_kind blk = Some Crossplane) blks))"
    by (simp add: init_pstate_def)
  show "length (xs (curve_of pf blk)) = length (ys (curve_of pf blk))"
    by (cases blk) simp
qed

text \<open>
  C2. A file of \<open>N\<close> well-formed profile curves is said to give \<open>N\<close> curves whose x and y
  sequences have equal length and hold the numeric tokens of the well-formed sample rows.
  The lemmas above show this for blocks without a row whose first token is numeric and
  whose second is not. On such a row the code appends the x value before the conversion
  of the y value fails: the row \<open>1.0 abc\<close> is not a sample, yet the committed curve has
  two x values and one y value.
\<close>

theorem half_parsed_line_unbalances_curve:
  "parse_mcc_profiles_all float_dec
      [''SCAN_CURVETYPE=INPLANE_PROFILE'', ''SCAN_DEPTH=100.00'', ''BEGIN_DATA'',
       ''1.0 abc'', ''2.0 3.0'', ''END_DATA'']
     = [(Inplane, [\<lparr>depth_mm = Some 100, xs = [1, 2], ys = [3]\<rparr>])]
   \<and> sample_of float_dec ''1.0 abc'' = None
   \<and> sample_of float_dec ''2.0 3.0'' = Some (2, 3)"
  by code_simp

end
